theory Spec2Isabelle
  imports Main "HOL-Library.Multiset"
begin

section \<open>Reliable multicast session (ReliableMulticast.cpp)\<close>

text \<open>
  A shallow embedding of \<^verbatim>\<open>dds/DCPS/transport/multicast/ReliableMulticast.cpp\<close>.
  The member functions of the class become functions on a record of its members; the
  clock, the allocator and the control channel are the environment and enter as
  arguments.
\<close>

subsection \<open>Scalars\<close>

text \<open>
  Modelled from the spec: the typedefs \<^verbatim>\<open>MulticastPeer\<close> and \<^verbatim>\<open>MulticastSequence\<close>
  are declared outside the source file. Peers are opaque identifiers; sequence numbers are
  unsigned counters compared as a total order (no wrap-around inside the window of
  interest). \<^verbatim>\<open>ACE_Time_Value\<close> is a signed time, here counted in microseconds.
\<close>

type_synonym MulticastPeer = nat
type_synonym MulticastSequence = nat
type_synonym ACE_Time_Value = int

subsection \<open>DisjointSequence\<close>

text \<open>
  Modelled from the spec: the class \<^verbatim>\<open>DisjointSequence\<close> (constructor, \<^verbatim>\<open>update\<close>,
  \<^verbatim>\<open>skip\<close>, \<^verbatim>\<open>disjoint\<close>, \<^verbatim>\<open>high\<close>, \<^verbatim>\<open>depth\<close>, the range iterator and the
  conversion to a sequence number) is declared outside the source file. A tracker entry
  holds the low-water mark, the high-water mark and the ordered list of closed gap ranges
  \<open>[a, b]\<close> with \<open>low \<le> a \<le> b < high\<close>.
\<close>

type_synonym range_type = "MulticastSequence \<times> MulticastSequence"

record DisjointSequence =
  low :: MulticastSequence
  high :: MulticastSequence
  gaps :: "range_type list"

text \<open>Modelled from the spec: the constructor seeds low and high with the baseline.\<close>

definition DisjointSequence_new :: "MulticastSequence \<Rightarrow> DisjointSequence" where
  "DisjointSequence_new v = \<lparr>low = v, high = v, gaps = []\<rparr>"

text \<open>Modelled from the spec: a gap is a closed range \<open>[a, b]\<close> of sequence numbers.\<close>

definition covers :: "MulticastSequence \<Rightarrow> range_type \<Rightarrow> bool" where
  "covers v r = (fst r \<le> v \<and> v \<le> snd r)"

text \<open>Modelled from the spec: a sequence number is missing when a gap covers it.\<close>

definition missing :: "DisjointSequence \<Rightarrow> MulticastSequence \<Rightarrow> bool" where
  "missing d v = list_ex (covers v) (gaps d)"


text \<open>
  Modelled from the spec: taking \<open>v\<close> out of one range removes, shrinks or splits the
  range.
\<close>

definition uncover :: "MulticastSequence \<Rightarrow> range_type \<Rightarrow> range_type list" where
  "uncover v r =
     (if covers v r
      then (if fst r < v then [(fst r, v - 1)] else []) @
           (if v < snd r then [(v + 1, snd r)] else [])
      else [r])"

text \<open>
  Modelled from the spec: \<^verbatim>\<open>update(seq)\<close> extends high when \<open>seq > high\<close>, opening a gap
  for the numbers skipped over, removes or shrinks the ranges covering \<open>seq\<close>, and returns
  whether \<open>seq\<close> had not been recorded yet.
\<close>

definition update :: "MulticastSequence \<Rightarrow> DisjointSequence \<Rightarrow> bool \<times> DisjointSequence" where
  "update v d =
     (if high d < v
      then (True, d\<lparr>high := v,
                    gaps := concat (map (uncover v) (gaps d)) @
                            (if high d + 1 < v then [(high d + 1, v - 1)] else [])\<rparr>)
      else if missing d v
      then (True, d\<lparr>gaps := concat (map (uncover v) (gaps d))\<rparr>)
      else (False, d))"

text \<open>
  Modelled from the spec: \<^verbatim>\<open>skip(floor)\<close> advances low to \<open>floor\<close> and discards every gap
  entirely below it. The spec's invariants \<open>low \<le> high\<close> and \<open>low \<le> a\<close> for each gap
  \<open>[a, b]\<close> fix the rest: high follows when the floor passes it, and a gap that straddles
  the floor keeps its part from the floor upward.
\<close>

definition skip :: "MulticastSequence \<Rightarrow> DisjointSequence \<Rightarrow> DisjointSequence" where
  "skip floor d =
     \<lparr>low = floor,
      high = max (high d) floor,
      gaps = map (\<lambda>r. (max (fst r) floor, snd r)) (filter (\<lambda>r. \<not> snd r < floor) (gaps d))\<rparr>"

text \<open>Modelled from the spec: \<^verbatim>\<open>disjoint()\<close> reports whether there is a gap.\<close>

definition disjoint :: "DisjointSequence \<Rightarrow> bool" where
  "disjoint d = (gaps d \<noteq> [])"

text \<open>
  Modelled from the spec: \<^verbatim>\<open>depth()\<close> reports how many sequence numbers are missing.
\<close>

definition depth :: "DisjointSequence \<Rightarrow> nat" where
  "depth d = sum_list (map (\<lambda>r. Suc (snd r) - fst r) (gaps d))"

text \<open>Modelled from the spec: \<^verbatim>\<open>range_begin()\<close> to \<^verbatim>\<open>range_end()\<close> walks the gap ranges in order.\<close>

definition ranges :: "DisjointSequence \<Rightarrow> range_type list" where
  "ranges d = gaps d"

text \<open>
  Modelled from the spec: the conversion of a \<^verbatim>\<open>DisjointSequence\<close> to a sequence number,
  which \<^verbatim>\<open>expire_naks\<close> uses in \<^verbatim>\<open>nak_request.second > sequence->second\<close>. It yields
  the low-water mark. The scenario of the specification has a request marked 10 expire
  while the peer's high-water mark is still 10, and \<^verbatim>\<open>skip(Y, 10)\<close> is invoked; the source
  says of the recorded mark that it is used to reset the low-water mark when a peer does
  not respond. Both need the recorded mark to be compared with the low-water mark: the
  high-water mark of a peer never falls behind a mark recorded for it, so a comparison
  with it would never let the skip run.
\<close>

definition as_sequence :: "DisjointSequence \<Rightarrow> MulticastSequence" where
  "as_sequence d = low d"

text \<open>Modelled from the spec: the invariants stated for a tracker entry.\<close>

definition ds_invariant :: "DisjointSequence \<Rightarrow> bool" where
  "ds_invariant d =
     (low d \<le> high d \<and>
      list_all (\<lambda>r. low d \<le> fst r \<and> fst r \<le> snd r \<and> snd r < high d) (gaps d))"

subsection \<open>Containers\<close>

text \<open>
  Modelled from the spec: the typedef \<^verbatim>\<open>SequenceMap\<close> is declared outside the source
  file; the spec has a map keyed by peer identity, and the source uses it as a
  \<^verbatim>\<open>std::map\<close> from peer to tracker (\<^verbatim>\<open>find\<close>, \<^verbatim>\<open>insert\<close> of a \<^verbatim>\<open>value_type\<close>, iteration
  from \<^verbatim>\<open>begin()\<close> to \<^verbatim>\<open>end()\<close>). It is an association list kept in key order:
  \<^verbatim>\<open>find\<close> is \<^const>\<open>map_of\<close>, \<^verbatim>\<open>insert\<close> adds a pair only when the key is absent, and
  a write through an iterator replaces the value found.
\<close>

type_synonym SequenceMap = "(MulticastPeer \<times> DisjointSequence) list"

definition map_insert :: "MulticastPeer \<Rightarrow> DisjointSequence \<Rightarrow> SequenceMap \<Rightarrow> SequenceMap" where
  "map_insert k v m = (case map_of m k of Some _ \<Rightarrow> m | None \<Rightarrow> insort_key fst (k, v) m)"

fun assign :: "MulticastPeer \<Rightarrow> DisjointSequence \<Rightarrow> SequenceMap \<Rightarrow> SequenceMap" where
  "assign k v [] = []"
| "assign k v (e # m) = (if fst e = k then (k, v) # m else e # assign k v m)"

text \<open>
  Modelled from the spec: \<^verbatim>\<open>NakHistory\<close> is declared outside the source file; it is a
  collection of \<open>(timestamp, (peer, high-water mark))\<close> ordered by timestamp in which several
  entries may share a timestamp. A new entry goes behind the entries that are not later.
\<close>

type_synonym NakRequest = "MulticastPeer \<times> MulticastSequence"
type_synonym NakHistory = "(ACE_Time_Value \<times> NakRequest) list"

fun history_insert :: "ACE_Time_Value \<times> NakRequest \<Rightarrow> NakHistory \<Rightarrow> NakHistory" where
  "history_insert e [] = [e]"
| "history_insert e (x # xs) = (if fst e < fst x then e # x # xs else x # history_insert e xs)"

subsection \<open>Messages and the environment\<close>

datatype SubMessageId =
  MULTICAST_SYN | MULTICAST_SYNACK | MULTICAST_NAK | MULTICAST_NAKACK | OTHER_SUBMESSAGE nat

datatype MessageId = TRANSPORT_CONTROL | SAMPLE_ACK | OTHER_MESSAGE nat

text \<open>
  The payload of a control message as the serializer writes and reads it: the two peers
  every control message starts with, then the remaining fields (low and high for the
  repair messages). The handlers read the two peers without a check, so a block too short
  to hold them is outside the model.
\<close>

record ACE_Message_Block =
  first_peer :: MulticastPeer
  second_peer :: MulticastPeer
  rest :: "MulticastSequence list"

type_synonym control_message = "SubMessageId \<times> ACE_Message_Block"

definition create_control :: "SubMessageId \<Rightarrow> ACE_Message_Block \<Rightarrow> control_message" where
  "create_control sub data = (sub, data)"

record TransportHeader =
  source :: MulticastPeer
  sequence :: MulticastSequence

record DataSampleHeader =
  message_id :: MessageId
  submessage_id :: SubMessageId

record ReceivedDataSample =
  header :: DataSampleHeader
  sample :: ACE_Message_Block

text \<open>
  The calls of \<^verbatim>\<open>ack_received\<close> and \<^verbatim>\<open>data_received\<close>, which belong to the base link,
  outside the source file, and cannot reach the private members of the session.
\<close>

datatype upcall = ACK_RECEIVED ReceivedDataSample | DATA_RECEIVED ReceivedDataSample

datatype SendControlStatus = SEND_CONTROL_ERROR | SEND_CONTROL_OK

text \<open>
  What the environment answers to one attempt to send a control message: the buffer
  cannot be allocated (\<^verbatim>\<open>ACE_NEW_NORETURN\<close> leaves a null pointer), or the message
  reaches \<^verbatim>\<open>send_control\<close>, which returns a status.
\<close>

datatype send_outcome = ALLOC_FAILED | RETURNED SendControlStatus

type_synonym environment = "control_message \<Rightarrow> send_outcome"

datatype log_priority = LM_ERROR | LM_WARNING

text \<open>
  A log record: its priority, its text and the values the format prints (a peer, a count
  or a submessage id as a number, the status \<^verbatim>\<open>send_control\<close> returned as itself).
\<close>

datatype log_arg = NUMBER nat | STATUS SendControlStatus

type_synonym log_record = "log_priority \<times> string \<times> log_arg list"

record MulticastConfiguration =
  nak_interval :: ACE_Time_Value
  nak_timeout :: ACE_Time_Value
  syn_interval :: ACE_Time_Value
  syn_timeout :: ACE_Time_Value

subsection \<open>The session\<close>

text \<open>
  The members of \<^verbatim>\<open>ReliableMulticast\<close> and of its base link that the source file reads or
  writes. A watchdog is its scheduled flag. \<open>control_sent\<close> lists the messages handed to
  \<^verbatim>\<open>send_control\<close>, \<open>association_checks\<close> counts the calls of
  \<^verbatim>\<open>check_fully_association\<close> on the transport, \<open>delivered\<close> lists the samples passed on
  to the base link, and \<open>logged\<close> lists the log records written.
\<close>

record ReliableMulticast =
  local_peer :: MulticastPeer
  remote_peer :: MulticastPeer
  config :: MulticastConfiguration
  acked_flag :: bool
  nak_watchdog :: bool
  syn_watchdog :: bool
  recvd_header :: TransportHeader
  sequences :: SequenceMap
  nak_history :: NakHistory
  control_sent :: "control_message list"
  association_checks :: nat
  delivered :: "upcall list"
  logged :: "log_record list"

text \<open>The constructor: nothing acknowledged, no watchdog scheduled, empty containers.\<close>

definition ReliableMulticast_new ::
  "MulticastConfiguration \<Rightarrow> MulticastPeer \<Rightarrow> MulticastPeer \<Rightarrow> ReliableMulticast" where
  "ReliableMulticast_new cfg lp rp =
     \<lparr>local_peer = lp, remote_peer = rp, config = cfg,
      acked_flag = False, nak_watchdog = False, syn_watchdog = False,
      recvd_header = \<lparr>source = 0, sequence = 0\<rparr>,
      sequences = [], nak_history = [],
      control_sent = [], association_checks = 0, delivered = [], logged = []\<rparr>"

definition acked :: "ReliableMulticast \<Rightarrow> bool" where
  "acked s = acked_flag s"

definition header_received :: "TransportHeader \<Rightarrow> ReliableMulticast \<Rightarrow> bool \<times> ReliableMulticast" where
  "header_received h s =
     (let s1 = s\<lparr>recvd_header := h\<rparr> in
      case map_of (sequences s1) (source h) of
        None \<Rightarrow> (True, s1)
      | Some d \<Rightarrow>
          (let (fresh, d') = update (sequence h) d
           in (fresh, s1\<lparr>sequences := assign (source h) d' (sequences s1)\<rparr>)))"

subsection \<open>Sending control messages\<close>

definition send_syn :: "environment \<Rightarrow> ReliableMulticast \<Rightarrow> ReliableMulticast" where
  "send_syn env s =
     (let message = create_control MULTICAST_SYN
            \<lparr>first_peer = local_peer s, second_peer = remote_peer s, rest = []\<rparr>
      in case env message of
           ALLOC_FAILED \<Rightarrow>
             s\<lparr>logged := logged s @ [(LM_ERROR, ''send_syn: failed to allocate message'', [])]\<rparr>
         | RETURNED error \<Rightarrow>
             (let s1 = s\<lparr>control_sent := control_sent s @ [message]\<rparr>
              in if error \<noteq> SEND_CONTROL_OK
                 then s1\<lparr>logged := logged s1 @
                           [(LM_ERROR, ''send_syn: send_control failed'', [STATUS error])]\<rparr>
                 else s1))"

definition send_synack ::
  "environment \<Rightarrow> MulticastPeer \<Rightarrow> ReliableMulticast \<Rightarrow> ReliableMulticast" where
  "send_synack env peer s =
     (let message = create_control MULTICAST_SYNACK
            \<lparr>first_peer = local_peer s, second_peer = peer, rest = []\<rparr>
      in case env message of
           ALLOC_FAILED \<Rightarrow>
             s\<lparr>logged := logged s @ [(LM_ERROR, ''send_synack: failed to allocate message'', [])]\<rparr>
         | RETURNED error \<Rightarrow>
             (let s1 = s\<lparr>control_sent := control_sent s @ [message]\<rparr>
              in if error \<noteq> SEND_CONTROL_OK
                 then s1\<lparr>logged := logged s1 @
                           [(LM_ERROR, ''send_synack: send_control failed'', [STATUS error])]\<rparr>
                 else s1))"

definition send_nak ::
  "environment \<Rightarrow> MulticastPeer \<Rightarrow> MulticastSequence \<Rightarrow> MulticastSequence \<Rightarrow>
   ReliableMulticast \<Rightarrow> ReliableMulticast" where
  "send_nak env peer lo hi s =
     (let message = create_control MULTICAST_NAK
            \<lparr>first_peer = local_peer s, second_peer = peer, rest = [lo, hi]\<rparr>
      in case env message of
           ALLOC_FAILED \<Rightarrow>
             s\<lparr>logged := logged s @ [(LM_ERROR, ''send_nak: failed to allocate message'', [])]\<rparr>
         | RETURNED error \<Rightarrow>
             (let s1 = s\<lparr>control_sent := control_sent s @ [message]\<rparr>
              in if error \<noteq> SEND_CONTROL_OK
                 then s1\<lparr>logged := logged s1 @
                           [(LM_ERROR, ''send_nak: send_control failed'', [STATUS error])]\<rparr>
                 else s1))"

text \<open>The body of \<^verbatim>\<open>send_nakack\<close> is empty in the source (it is marked TODO).\<close>

definition send_nakack ::
  "MulticastPeer \<Rightarrow> MulticastSequence \<Rightarrow> MulticastSequence \<Rightarrow>
   ReliableMulticast \<Rightarrow> ReliableMulticast" where
  "send_nakack peer lo hi s = s"

subsection \<open>The repair cycle\<close>

text \<open>The body of the loop of \<^verbatim>\<open>expire_naks\<close>, for one expired request.\<close>

definition expire_request :: "NakRequest \<Rightarrow> ReliableMulticast \<Rightarrow> ReliableMulticast" where
  "expire_request nak_request s =
     (case map_of (sequences s) (fst nak_request) of
        None \<Rightarrow>
          s\<lparr>logged := logged s @
               [(LM_ERROR, ''expire_naks: failed to find sequence for remote peer'',
                 [NUMBER (fst nak_request)])]\<rparr>
      | Some d \<Rightarrow>
          if snd nak_request > as_sequence d
          then s\<lparr>logged := logged s @
                    [(LM_WARNING, ''expire_naks: skipping datagrams from unreliable remote peer'',
                      [NUMBER (depth d), NUMBER (fst nak_request)])],
                  sequences := assign (fst nak_request) (skip (snd nak_request) d) (sequences s)\<rparr>
          else s)"

fun expire_range :: "NakHistory \<Rightarrow> ReliableMulticast \<Rightarrow> ReliableMulticast" where
  "expire_range [] s = s"
| "expire_range (e # es) s = expire_range es (expire_request (snd e) s)"

text \<open>
  \<^verbatim>\<open>upper_bound(deadline)\<close> ends the leading run of entries whose timestamp is not after
  the deadline; \<^verbatim>\<open>erase(first, last)\<close> drops that run.
\<close>

definition expire_naks :: "ACE_Time_Value \<Rightarrow> ReliableMulticast \<Rightarrow> ReliableMulticast" where
  "expire_naks now s =
     (let deadline = now - nak_timeout (config s);
          expired = takeWhile (\<lambda>e. fst e \<le> deadline) (nak_history s)
      in if expired = [] then s
         else (expire_range expired s)
                \<lparr>nak_history := dropWhile (\<lambda>e. fst e \<le> deadline) (nak_history s)\<rparr>)"

fun send_nak_ranges ::
  "environment \<Rightarrow> MulticastPeer \<Rightarrow> range_type list \<Rightarrow> ReliableMulticast \<Rightarrow> ReliableMulticast" where
  "send_nak_ranges env peer [] s = s"
| "send_nak_ranges env peer (r # rs) s =
     send_nak_ranges env peer rs (send_nak env peer (fst r) (snd r) s)"

fun send_naks_loop ::
  "environment \<Rightarrow> ACE_Time_Value \<Rightarrow> SequenceMap \<Rightarrow> ReliableMulticast \<Rightarrow> ReliableMulticast" where
  "send_naks_loop env now [] s = s"
| "send_naks_loop env now (it # its) s =
     (if \<not> disjoint (snd it) then send_naks_loop env now its s
      else send_naks_loop env now its
             (send_nak_ranges env (fst it) (ranges (snd it))
                (s\<lparr>nak_history :=
                      history_insert (now, (fst it, high (snd it))) (nak_history s)\<rparr>)))"

definition send_naks ::
  "environment \<Rightarrow> ACE_Time_Value \<Rightarrow> ReliableMulticast \<Rightarrow> ReliableMulticast" where
  "send_naks env now s = send_naks_loop env now (sequences s) s"

subsection \<open>Receiving control messages\<close>

definition syn_received ::
  "environment \<Rightarrow> ACE_Message_Block \<Rightarrow> ReliableMulticast \<Rightarrow> ReliableMulticast" where
  "syn_received env message s =
     (let peer = first_peer message; dest = second_peer message
      in if dest \<noteq> local_peer s then s
         else send_synack env peer
                (s\<lparr>sequences :=
                      map_insert peer (DisjointSequence_new (sequence (recvd_header s)))
                        (sequences s)\<rparr>))"

definition synack_received :: "ACE_Message_Block \<Rightarrow> ReliableMulticast \<Rightarrow> ReliableMulticast" where
  "synack_received message s =
     (let peer = first_peer message; dest = second_peer message
      in if dest \<noteq> local_peer s then s
         else s\<lparr>syn_watchdog := False,
                 acked_flag := True,
                 association_checks := Suc (association_checks s)\<rparr>)"

text \<open>The bodies of \<^verbatim>\<open>nak_received\<close> and \<^verbatim>\<open>nakack_received\<close> are empty in the source (TODO).\<close>

definition nak_received :: "ACE_Message_Block \<Rightarrow> ReliableMulticast \<Rightarrow> ReliableMulticast" where
  "nak_received message s = s"

definition nakack_received :: "ACE_Message_Block \<Rightarrow> ReliableMulticast \<Rightarrow> ReliableMulticast" where
  "nakack_received message s = s"

text \<open>
  Modelled from the spec: \<^verbatim>\<open>ack_received\<close> and \<^verbatim>\<open>data_received\<close> of the base link take
  the sample for delivery; the session members stay as they are.
\<close>

definition ack_received :: "ReceivedDataSample \<Rightarrow> ReliableMulticast \<Rightarrow> ReliableMulticast" where
  "ack_received smp s = s\<lparr>delivered := delivered s @ [ACK_RECEIVED smp]\<rparr>"

definition data_received :: "ReceivedDataSample \<Rightarrow> ReliableMulticast \<Rightarrow> ReliableMulticast" where
  "data_received smp s = s\<lparr>delivered := delivered s @ [DATA_RECEIVED smp]\<rparr>"

definition sample_received ::
  "environment \<Rightarrow> ReceivedDataSample \<Rightarrow> ReliableMulticast \<Rightarrow> ReliableMulticast" where
  "sample_received env smp s =
     (case message_id (header smp) of
        TRANSPORT_CONTROL \<Rightarrow>
          (case submessage_id (header smp) of
             MULTICAST_SYN \<Rightarrow> syn_received env (sample smp) s
           | MULTICAST_SYNACK \<Rightarrow> synack_received (sample smp) s
           | MULTICAST_NAK \<Rightarrow> nak_received (sample smp) s
           | MULTICAST_NAKACK \<Rightarrow> nakack_received (sample smp) s
           | OTHER_SUBMESSAGE n \<Rightarrow>
               s\<lparr>logged := logged s @
                    [(LM_WARNING, ''sample_received: unknown TRANSPORT_CONTROL submessage'', [NUMBER n])]\<rparr>)
      | SAMPLE_ACK \<Rightarrow> ack_received smp s
      | OTHER_MESSAGE n \<Rightarrow> data_received smp s)"

subsection \<open>Watchdogs, joining and leaving\<close>

definition NakWatchdog_next_interval :: "ReliableMulticast \<Rightarrow> ACE_Time_Value" where
  "NakWatchdog_next_interval s = nak_interval (config s)"

definition SynWatchdog_next_interval :: "ReliableMulticast \<Rightarrow> ACE_Time_Value" where
  "SynWatchdog_next_interval s = syn_interval (config s)"

definition SynWatchdog_next_timeout :: "ReliableMulticast \<Rightarrow> ACE_Time_Value" where
  "SynWatchdog_next_timeout s = syn_timeout (config s)"

text \<open>
  \<^verbatim>\<open>NakWatchdog::on_interval\<close> runs the expire phase and then the request phase; each
  reads the clock itself.
\<close>

definition NakWatchdog_on_interval ::
  "environment \<Rightarrow> ACE_Time_Value \<Rightarrow> ACE_Time_Value \<Rightarrow> ReliableMulticast \<Rightarrow> ReliableMulticast" where
  "NakWatchdog_on_interval env now1 now2 s = send_naks env now2 (expire_naks now1 s)"

definition SynWatchdog_on_interval :: "environment \<Rightarrow> ReliableMulticast \<Rightarrow> ReliableMulticast" where
  "SynWatchdog_on_interval env s = send_syn env s"

definition SynWatchdog_on_timeout :: "ReliableMulticast \<Rightarrow> ReliableMulticast" where
  "SynWatchdog_on_timeout s =
     s\<lparr>logged := logged s @
          [(LM_ERROR, ''SynWatchdog::on_timeout: timed out handshaking with remote peer'',
            [NUMBER (remote_peer s)])]\<rparr>"

text \<open>
  \<^verbatim>\<open>join_i\<close>: the environment says whether a reactor exists and whether each call of
  \<^verbatim>\<open>schedule\<close> succeeds.
\<close>

definition join_i ::
  "bool \<Rightarrow> bool \<Rightarrow> bool \<Rightarrow> bool \<Rightarrow> ReliableMulticast \<Rightarrow> bool \<times> ReliableMulticast" where
  "join_i reactor nak_scheduled syn_scheduled active s =
     (if \<not> reactor
      then (False, s\<lparr>logged := logged s @ [(LM_ERROR, ''join_i: NULL reactor reference'', [])]\<rparr>)
      else if \<not> nak_scheduled
      then (False, s\<lparr>logged := logged s @
                         [(LM_ERROR, ''join_i: failed to schedule NAK watchdog timer'', [])]\<rparr>)
      else
        (let s1 = s\<lparr>nak_watchdog := True\<rparr>
         in if active
            then (if \<not> syn_scheduled
                  then (False, s1\<lparr>nak_watchdog := False,
                                   logged := logged s1 @
                                     [(LM_ERROR, ''join_i: failed to schedule SYN watchdog timer'', [])]\<rparr>)
                  else (True, s1\<lparr>syn_watchdog := True\<rparr>))
            else (True, s1)))"

definition leave_i :: "ReliableMulticast \<Rightarrow> ReliableMulticast" where
  "leave_i s = s\<lparr>syn_watchdog := False, nak_watchdog := False\<rparr>"

subsection \<open>Operations of a session\<close>

text \<open>
  Every way the source file offers to act on a session once it is constructed, with the
  answers of the environment it needs.
\<close>

datatype operation =
    HEADER_RECEIVED TransportHeader
  | SAMPLE_RECEIVED environment ReceivedDataSample
  | ACKED
  | EXPIRE_NAKS ACE_Time_Value
  | SEND_NAKS environment ACE_Time_Value
  | SEND_SYN environment
  | SEND_SYNACK environment MulticastPeer
  | SEND_NAK environment MulticastPeer MulticastSequence MulticastSequence
  | SEND_NAKACK MulticastPeer MulticastSequence MulticastSequence
  | NAK_ON_INTERVAL environment ACE_Time_Value ACE_Time_Value
  | SYN_ON_INTERVAL environment
  | SYN_ON_TIMEOUT
  | JOIN bool bool bool bool
  | LEAVE

fun perform :: "operation \<Rightarrow> ReliableMulticast \<Rightarrow> ReliableMulticast" where
  "perform (HEADER_RECEIVED h) s = snd (header_received h s)"
| "perform (SAMPLE_RECEIVED env smp) s = sample_received env smp s"
| "perform ACKED s = s"
| "perform (EXPIRE_NAKS now) s = expire_naks now s"
| "perform (SEND_NAKS env now) s = send_naks env now s"
| "perform (SEND_SYN env) s = send_syn env s"
| "perform (SEND_SYNACK env peer) s = send_synack env peer s"
| "perform (SEND_NAK env peer lo hi) s = send_nak env peer lo hi s"
| "perform (SEND_NAKACK peer lo hi) s = send_nakack peer lo hi s"
| "perform (NAK_ON_INTERVAL env now1 now2) s = NakWatchdog_on_interval env now1 now2 s"
| "perform (SYN_ON_INTERVAL env) s = SynWatchdog_on_interval env s"
| "perform SYN_ON_TIMEOUT s = SynWatchdog_on_timeout s"
| "perform (JOIN reactor nak_scheduled syn_scheduled active) s =
     snd (join_i reactor nak_scheduled syn_scheduled active s)"
| "perform LEAVE s = leave_i s"

fun run :: "operation list \<Rightarrow> ReliableMulticast \<Rightarrow> ReliableMulticast" where
  "run [] s = s"
| "run (e # es) s = run es (perform e s)"

subsection \<open>The repair cycle in the words of the specification\<close>


text \<open>
  The same rule with the high-water mark in the place of the low-water mark, as the
  description of the expire phase words it.
\<close>

definition skip_if_high_behind ::
  "MulticastSequence \<Rightarrow> DisjointSequence \<Rightarrow> DisjointSequence" where
  "skip_if_high_behind mark d = (if high d < mark then skip mark d else d)"



text \<open>
  The request phase: one ledger entry for each peer with gaps, and one repair request for
  each gap range of such a peer.
\<close>

definition requests_due :: "ACE_Time_Value \<Rightarrow> SequenceMap \<Rightarrow> NakHistory" where
  "requests_due now m =
     map (\<lambda>it. (now, (fst it, high (snd it)))) (filter (\<lambda>it. disjoint (snd it)) m)"

definition nak_message :: "MulticastPeer \<Rightarrow> MulticastPeer \<Rightarrow> range_type \<Rightarrow> control_message" where
  "nak_message lp peer r =
     create_control MULTICAST_NAK \<lparr>first_peer = lp, second_peer = peer, rest = [fst r, snd r]\<rparr>"

definition naks_due :: "MulticastPeer \<Rightarrow> SequenceMap \<Rightarrow> control_message list" where
  "naks_due lp m =
     concat (map (\<lambda>it. if disjoint (snd it)
                        then map (nak_message lp (fst it)) (ranges (snd it))
                        else []) m)"

definition synack_message :: "MulticastPeer \<Rightarrow> MulticastPeer \<Rightarrow> control_message" where
  "synack_message lp peer =
     create_control MULTICAST_SYNACK \<lparr>first_peer = lp, second_peer = peer, rest = []\<rparr>"

text \<open>
  What one attempt to send leaves in the log: an error when the buffer cannot be
  allocated, an error with the status when \<^verbatim>\<open>send_control\<close> does not return
  \<^verbatim>\<open>SEND_CONTROL_OK\<close>, and nothing otherwise.
\<close>

definition failure_log :: "string \<Rightarrow> send_outcome \<Rightarrow> log_record list" where
  "failure_log sender outcome =
     (case outcome of
        ALLOC_FAILED \<Rightarrow> [(LM_ERROR, sender @ '': failed to allocate message'', [])]
      | RETURNED error \<Rightarrow>
          if error \<noteq> SEND_CONTROL_OK
          then [(LM_ERROR, sender @ '': send_control failed'', [STATUS error])]
          else [])"

subsection \<open>Recorded marks and the high-water mark\<close>

text \<open>
  The sequence map has one entry for each peer, and every request on the ledger is for a
  peer in the map and records a mark that is not above the high-water mark of that peer.
\<close>

definition marks_bounded :: "ReliableMulticast \<Rightarrow> bool" where
  "marks_bounded s =
     (distinct (map fst (sequences s)) \<and>
      list_all (\<lambda>e. case map_of (sequences s) (fst (snd e)) of
                       None \<Rightarrow> False
                     | Some d \<Rightarrow> snd (snd e) \<le> high d)
        (nak_history s))"

subsection \<open>A concrete session\<close>

text \<open>
  Peer 1 is local. Peer 2 has sent 1, 2, 4 and 6, peer 7 has only shaken hands; three
  repair requests are on the ledger.
\<close>

definition example_config :: MulticastConfiguration where
  "example_config = \<lparr>nak_interval = 5, nak_timeout = 10, syn_interval = 5, syn_timeout = 30\<rparr>"

definition example_tracker :: DisjointSequence where
  "example_tracker = \<lparr>low = 1, high = 6, gaps = [(3, 3), (5, 5)]\<rparr>"

definition example_session :: ReliableMulticast where
  "example_session =
     (ReliableMulticast_new example_config 1 2)
       \<lparr>recvd_header := \<lparr>source = 2, sequence = 6\<rparr>,
        sequences := [(2, example_tracker), (7, DisjointSequence_new 4)],
        nak_history := [(0, (2, 8)), (5, (7, 4)), (20, (2, 9))]\<rparr>"

definition no_memory :: environment where
  "no_memory message = ALLOC_FAILED"

definition channel_open :: environment where
  "channel_open message = RETURNED SEND_CONTROL_OK"

definition syn_from_known :: ACE_Message_Block where
  "syn_from_known = \<lparr>first_peer = 2, second_peer = 1, rest = []\<rparr>"

definition syn_from_new :: ACE_Message_Block where
  "syn_from_new = \<lparr>first_peer = 9, second_peer = 1, rest = []\<rparr>"

definition syn_for_other :: ACE_Message_Block where
  "syn_for_other = \<lparr>first_peer = 9, second_peer = 3, rest = []\<rparr>"

definition repair_2_5 :: ACE_Message_Block where
  "repair_2_5 = \<lparr>first_peer = 2, second_peer = 1, rest = [2, 5]\<rparr>"

definition nak_sample :: ReceivedDataSample where
  "nak_sample =
     \<lparr>header = \<lparr>message_id = TRANSPORT_CONTROL, submessage_id = MULTICAST_NAK\<rparr>,
      sample = repair_2_5\<rparr>"

definition nakack_sample :: ReceivedDataSample where
  "nakack_sample =
     \<lparr>header = \<lparr>message_id = TRANSPORT_CONTROL, submessage_id = MULTICAST_NAKACK\<rparr>,
      sample = repair_2_5\<rparr>"

definition synack_sample :: ReceivedDataSample where
  "synack_sample =
     \<lparr>header = \<lparr>message_id = TRANSPORT_CONTROL, submessage_id = MULTICAST_SYNACK\<rparr>,
      sample = \<lparr>first_peer = 2, second_peer = 1, rest = []\<rparr>\<rparr>"


definition header_9_1 :: TransportHeader where
  "header_9_1 = \<lparr>source = 9, sequence = 1\<rparr>"

text \<open>
  A session built from the constructor. Peer 2 shakes hands with header 1 and sends 2, 4
  and 6; the request phase runs at time 0 and peer 2 then stays silent.
\<close>

definition syn_sample :: ReceivedDataSample where
  "syn_sample =
     \<lparr>header = \<lparr>message_id = TRANSPORT_CONTROL, submessage_id = MULTICAST_SYN\<rparr>,
      sample = syn_from_known\<rparr>"

definition stalled_session :: ReliableMulticast where
  "stalled_session =
     run [HEADER_RECEIVED \<lparr>source = 2, sequence = 1\<rparr>,
          SAMPLE_RECEIVED channel_open syn_sample,
          HEADER_RECEIVED \<lparr>source = 2, sequence = 2\<rparr>,
          HEADER_RECEIVED \<lparr>source = 2, sequence = 4\<rparr>,
          HEADER_RECEIVED \<lparr>source = 2, sequence = 6\<rparr>,
          SEND_NAKS channel_open 0]
       (ReliableMulticast_new example_config 1 2)"



text \<open>An environment in which the control channel refuses every message.\<close>

definition channel_closed :: environment where
  "channel_closed message = RETURNED SEND_CONTROL_ERROR"

section \<open>Properties\<close>

subsection \<open>Containers and trackers\<close>

lemma map_of_assign:
  "map_of (assign k v m) = (case map_of m k of None \<Rightarrow> map_of m | Some _ \<Rightarrow> (map_of m)(k \<mapsto> v))"
  by (induction m) (auto split: option.splits)


lemma map_of_assign_other:
  "p \<noteq> k \<Longrightarrow> map_of (assign k v m) p = map_of m p"
  by (simp add: map_of_assign split: option.splits)

lemma map_of_insort_key:
  "map_of m k = None \<Longrightarrow> map_of (insort_key fst (k, v) m) = (map_of m)(k \<mapsto> v)"
  by (induction m) (auto split: if_splits)

lemma map_of_map_insert:
  "map_of (map_insert k v m) =
     (case map_of m k of None \<Rightarrow> (map_of m)(k \<mapsto> v) | Some _ \<Rightarrow> map_of m)"
  by (simp add: map_insert_def map_of_insort_key split: option.splits)





text \<open>
  The scenario of the specification: a peer registered at 1 that then sends 2, 4 and 6 has
  high-water mark 6 and the gaps \<open>[3, 3]\<close> and \<open>[5, 5]\<close>.
\<close>

lemma update_scenario:
  "snd (update 6 (snd (update 4 (snd (update 2 (DisjointSequence_new 1)))))) = example_tracker"
  by (simp add: update_def uncover_def covers_def DisjointSequence_new_def example_tracker_def)

subsection \<open>Receiving a transport header\<close>





subsection \<open>Two sessions built from the constructor\<close>

lemma stalled_session_fields:
  "local_peer stalled_session = 1"
  "config stalled_session = example_config"
  "sequences stalled_session = [(2, example_tracker)]"
  "nak_history stalled_session = [(0, (2, 6))]"
  "control_sent stalled_session =
     [synack_message 1 2, nak_message 1 2 (3, 3), nak_message 1 2 (5, 5)]"
  "logged stalled_session = []"
  by (simp_all add: stalled_session_def ReliableMulticast_new_def header_received_def
        sample_received_def syn_sample_def syn_from_known_def syn_received_def
        send_synack_def send_naks_def send_nak_def create_control_def channel_open_def
        synack_message_def nak_message_def
        map_insert_def DisjointSequence_new_def update_def uncover_def covers_def
        missing_def disjoint_def ranges_def example_tracker_def Let_def)


subsection \<open>What the senders and the header change\<close>

lemma send_syn_frame:
  "sequences (send_syn env s) = sequences s"
  "nak_history (send_syn env s) = nak_history s"
  "acked_flag (send_syn env s) = acked_flag s"
  "local_peer (send_syn env s) = local_peer s"
  "config (send_syn env s) = config s"
  by (simp_all add: send_syn_def Let_def split: send_outcome.splits)

lemma send_synack_frame:
  "sequences (send_synack env p s) = sequences s"
  "nak_history (send_synack env p s) = nak_history s"
  "acked_flag (send_synack env p s) = acked_flag s"
  "local_peer (send_synack env p s) = local_peer s"
  "config (send_synack env p s) = config s"
  by (simp_all add: send_synack_def Let_def split: send_outcome.splits)

lemma send_synack_sent:
  "control_sent (send_synack env p s) =
     control_sent s @ (if env (synack_message (local_peer s) p) = ALLOC_FAILED then []
                       else [synack_message (local_peer s) p])"
  by (simp add: send_synack_def synack_message_def Let_def split: send_outcome.splits)

lemma send_synack_logged:
  "logged (send_synack env p s) =
     logged s @ failure_log ''send_synack'' (env (synack_message (local_peer s) p))"
  by (simp add: send_synack_def synack_message_def failure_log_def Let_def
        split: send_outcome.splits)

lemma send_nak_frame:
  "sequences (send_nak env p lo hi s) = sequences s"
  "nak_history (send_nak env p lo hi s) = nak_history s"
  "acked_flag (send_nak env p lo hi s) = acked_flag s"
  "local_peer (send_nak env p lo hi s) = local_peer s"
  "config (send_nak env p lo hi s) = config s"
  by (simp_all add: send_nak_def Let_def split: send_outcome.splits)

lemma send_nak_sent:
  "control_sent (send_nak env p lo hi s) =
     control_sent s @ filter (\<lambda>m. env m \<noteq> ALLOC_FAILED) [nak_message (local_peer s) p (lo, hi)]"
  by (simp add: send_nak_def nak_message_def Let_def split: send_outcome.splits)

lemma send_nak_logged:
  "logged (send_nak env p lo hi s) =
     logged s @ failure_log ''send_nak'' (env (nak_message (local_peer s) p (lo, hi)))"
  by (simp add: send_nak_def nak_message_def failure_log_def Let_def
        split: send_outcome.splits)

lemma send_nak_ranges_frame:
  "sequences (send_nak_ranges env p rs s) = sequences s"
  "nak_history (send_nak_ranges env p rs s) = nak_history s"
  "acked_flag (send_nak_ranges env p rs s) = acked_flag s"
  "local_peer (send_nak_ranges env p rs s) = local_peer s"
  "config (send_nak_ranges env p rs s) = config s"
  by (induction rs arbitrary: s; simp add: send_nak_frame)+

lemma send_nak_ranges_sent:
  "control_sent (send_nak_ranges env p rs s) =
     control_sent s @ filter (\<lambda>m. env m \<noteq> ALLOC_FAILED) (map (nak_message (local_peer s) p) rs)"
  by (induction rs arbitrary: s) (simp_all add: send_nak_sent send_nak_frame)

lemma send_nak_ranges_logged:
  "logged (send_nak_ranges env p rs s) =
     logged s @
     concat (map (\<lambda>m. failure_log ''send_nak'' (env m)) (map (nak_message (local_peer s) p) rs))"
  by (induction rs arbitrary: s) (simp_all add: send_nak_logged send_nak_frame)

lemma send_naks_loop_frame:
  "sequences (send_naks_loop env now m s) = sequences s"
  "acked_flag (send_naks_loop env now m s) = acked_flag s"
  "local_peer (send_naks_loop env now m s) = local_peer s"
  "config (send_naks_loop env now m s) = config s"
  by (induction m arbitrary: s; simp add: send_nak_ranges_frame)+

lemma header_received_frame:
  "nak_history (snd (header_received h s)) = nak_history s"
  "acked_flag (snd (header_received h s)) = acked_flag s"
  "recvd_header (snd (header_received h s)) = h"
  by (simp_all add: header_received_def Let_def split: option.splits prod.splits)

lemma header_received_local_peer: "local_peer (snd (header_received h s)) = local_peer s"
  by (simp add: header_received_def Let_def split: option.splits prod.splits)

lemma join_i_frame:
  "nak_history (snd (join_i r n y a s)) = nak_history s"
  "acked_flag (snd (join_i r n y a s)) = acked_flag s"
  by (simp_all add: join_i_def Let_def)

lemma join_i_sequences: "sequences (snd (join_i r n y a s)) = sequences s"
  by (simp add: join_i_def Let_def)

subsection \<open>The request phase\<close>

lemma mset_history_insert: "mset (history_insert e h) = add_mset e (mset h)"
  by (induction h) simp_all

lemma send_naks_loop_history:
  "mset (nak_history (send_naks_loop env now m s)) =
     mset (nak_history s) + mset (requests_due now m)"
  by (induction m arbitrary: s)
     (simp_all add: requests_due_def send_nak_ranges_frame mset_history_insert)

lemma naks_due_simps:
  "naks_due lp [] = []"
  "naks_due lp (it # m) =
     (if disjoint (snd it) then map (nak_message lp (fst it)) (ranges (snd it)) else []) @
     naks_due lp m"
  by (simp_all add: naks_due_def)

lemma send_naks_loop_sent:
  "control_sent (send_naks_loop env now m s) =
     control_sent s @ filter (\<lambda>m. env m \<noteq> ALLOC_FAILED) (naks_due (local_peer s) m)"
  by (induction m arbitrary: s)
     (simp_all add: naks_due_simps send_nak_ranges_sent send_nak_ranges_frame)

lemma send_naks_loop_logged:
  "logged (send_naks_loop env now m s) =
     logged s @ concat (map (\<lambda>m. failure_log ''send_nak'' (env m)) (naks_due (local_peer s) m))"
  by (induction m arbitrary: s)
     (simp_all add: naks_due_simps send_nak_ranges_logged send_nak_ranges_frame)

text \<open>
  Claim C4, amended. In one run of the request phase every peer whose tracker is disjoint
  gets exactly one new ledger entry \<open>(now, peer, high)\<close>, and \<^verbatim>\<open>send_nak\<close> is called once
  for each of its gap ranges, in order. Each call hands one repair request to
  \<^verbatim>\<open>send_control\<close>, and logs an error with the status when \<^verbatim>\<open>send_control\<close> does not
  return \<^verbatim>\<open>SEND_CONTROL_OK\<close>; when the buffer of the message cannot be allocated the call
  logs an error and hands nothing over. A peer whose tracker is not disjoint gets no
  ledger entry and no message. When every allocation succeeds, the messages handed over
  are exactly one per gap range of every disjoint peer.
\<close>

theorem send_naks_requests:
  "mset (nak_history (send_naks env now s)) =
     mset (nak_history s) + mset (requests_due now (sequences s)) \<and>
   control_sent (send_naks env now s) =
     control_sent s @
     filter (\<lambda>m. env m \<noteq> ALLOC_FAILED) (naks_due (local_peer s) (sequences s)) \<and>
   logged (send_naks env now s) =
     logged s @
     concat (map (\<lambda>m. failure_log ''send_nak'' (env m))
               (naks_due (local_peer s) (sequences s))) \<and>
   ((\<forall>m \<in> set (naks_due (local_peer s) (sequences s)). env m \<noteq> ALLOC_FAILED) \<longrightarrow>
      control_sent (send_naks env now s) =
        control_sent s @ naks_due (local_peer s) (sequences s))"
  by (simp add: send_naks_def send_naks_loop_history send_naks_loop_sent send_naks_loop_logged)

text \<open>
  On the session built from the constructor, at time 30: the two gaps of peer 2 are
  requested again, and the log shows what each kind of environment leaves.
\<close>

theorem send_naks_requests_witness:
  "mset (nak_history (send_naks channel_open 30 stalled_session)) =
     {#(0, (2, 6)), (30, (2, 6))#} \<and>
   control_sent (send_naks channel_open 30 stalled_session) =
     control_sent stalled_session @ [nak_message 1 2 (3, 3), nak_message 1 2 (5, 5)] \<and>
   logged (send_naks channel_open 30 stalled_session) = [] \<and>
   control_sent (send_naks channel_closed 30 stalled_session) =
     control_sent stalled_session @ [nak_message 1 2 (3, 3), nak_message 1 2 (5, 5)] \<and>
   logged (send_naks channel_closed 30 stalled_session) =
     [(LM_ERROR, ''send_nak: send_control failed'', [STATUS SEND_CONTROL_ERROR]),
      (LM_ERROR, ''send_nak: send_control failed'', [STATUS SEND_CONTROL_ERROR])] \<and>
   control_sent (send_naks no_memory 30 stalled_session) = control_sent stalled_session \<and>
   logged (send_naks no_memory 30 stalled_session) =
     [(LM_ERROR, ''send_nak: failed to allocate message'', []),
      (LM_ERROR, ''send_nak: failed to allocate message'', [])]"
proof -
  have due: "naks_due (local_peer stalled_session) (sequences stalled_session) =
      [nak_message 1 2 (3, 3), nak_message 1 2 (5, 5)]"
    by (simp add: stalled_session_fields naks_due_def disjoint_def ranges_def
          example_tracker_def)
  have requests: "requests_due 30 (sequences stalled_session) = [(30, (2, 6))]"
    by (simp add: stalled_session_fields requests_due_def disjoint_def example_tracker_def)
  have allocated:
    "\<forall>m \<in> set (naks_due (local_peer stalled_session) (sequences stalled_session)).
       channel_open m \<noteq> ALLOC_FAILED"
    "\<forall>m \<in> set (naks_due (local_peer stalled_session) (sequences stalled_session)).
       channel_closed m \<noteq> ALLOC_FAILED"
    by (simp_all add: channel_open_def channel_closed_def)
  show ?thesis
    using allocated
      send_naks_requests [of channel_open 30 stalled_session]
      send_naks_requests [of channel_closed 30 stalled_session]
      send_naks_requests [of no_memory 30 stalled_session]
    by (simp add: due requests stalled_session_fields(4,6) failure_log_def channel_open_def
          channel_closed_def no_memory_def)
qed

text \<open>
  Claim C4 as stated fails when no buffer can be allocated: peer 2 has the two gaps
  \<open>[3, 3]\<close> and \<open>[5, 5]\<close>, and the request phase sends nothing.
\<close>

theorem send_naks_no_memory:
  "map_of (sequences example_session) 2 = Some example_tracker \<and>
   disjoint example_tracker \<and>
   ranges example_tracker = [(3, 3), (5, 5)] \<and>
   control_sent (send_naks no_memory 30 example_session) = []"
  by (simp add: send_naks_def send_nak_def create_control_def no_memory_def Let_def
        disjoint_def ranges_def DisjointSequence_new_def
        example_session_def example_tracker_def ReliableMulticast_new_def)

subsection \<open>The expire phase\<close>

lemma expire_request_frame:
  "nak_history (expire_request r s) = nak_history s"
  "config (expire_request r s) = config s"
  "acked_flag (expire_request r s) = acked_flag s"
  by (simp_all add: expire_request_def split: option.splits)


lemma expire_range_frame:
  "nak_history (expire_range es s) = nak_history s"
  "config (expire_range es s) = config s"
  "acked_flag (expire_range es s) = acked_flag s"
  by (induction es arbitrary: s; simp add: expire_request_frame)+




lemma dropWhile_due:
  "sorted (map fst h) \<Longrightarrow>
   dropWhile (\<lambda>e. fst e \<le> (deadline::int)) h = filter (\<lambda>e. \<not> fst e \<le> deadline) h"
proof (induction h)
  case Nil
  show ?case by simp
next
  case (Cons x xs)
  show ?case
  proof (cases "fst x \<le> deadline")
    case True
    with Cons show ?thesis by simp
  next
    case False
    with Cons.prems have "\<forall>e \<in> set xs. \<not> fst e \<le> deadline" by auto
    then have "filter (\<lambda>e. \<not> fst e \<le> deadline) xs = xs" by (simp add: filter_id_conv)
    with False show ?thesis by simp
  qed
qed

lemma expire_naks_history:
  "nak_history (expire_naks now s) =
     dropWhile (\<lambda>e. fst e \<le> now - nak_timeout (config s)) (nak_history s)"
proof (cases "takeWhile (\<lambda>e. fst e \<le> now - nak_timeout (config s)) (nak_history s) = []")
  case True
  then have "dropWhile (\<lambda>e. fst e \<le> now - nak_timeout (config s)) (nak_history s) = nak_history s"
    by (metis append_Nil takeWhile_dropWhile_id)
  with True show ?thesis by (simp add: expire_naks_def Let_def)
next
  case False
  then show ?thesis by (simp add: expire_naks_def Let_def)
qed

lemma expire_naks_sequences:
  "sequences (expire_naks now s) =
     sequences (expire_range
       (takeWhile (\<lambda>e. fst e \<le> now - nak_timeout (config s)) (nak_history s)) s)"
  by (simp add: expire_naks_def Let_def)

lemma expire_naks_frame:
  "config (expire_naks now s) = config s"
  "acked_flag (expire_naks now s) = acked_flag s"
  by (simp_all add: expire_naks_def Let_def expire_range_frame)










subsection \<open>The handshake\<close>

lemma syn_received_frame:
  "nak_history (syn_received env m s) = nak_history s"
  "acked_flag (syn_received env m s) = acked_flag s"
  by (simp_all add: syn_received_def Let_def send_synack_frame)

lemma syn_received_addressed:
  "second_peer message = local_peer s \<Longrightarrow>
   syn_received env message s =
     send_synack env (first_peer message)
       (s\<lparr>sequences :=
            map_insert (first_peer message) (DisjointSequence_new (sequence (recvd_header s)))
              (sequences s)\<rparr>)"
  by (simp add: syn_received_def Let_def)

lemma syn_received_sequences:
  "second_peer message = local_peer s \<Longrightarrow>
   sequences (syn_received env message s) =
     map_insert (first_peer message) (DisjointSequence_new (sequence (recvd_header s)))
       (sequences s)"
  by (simp add: syn_received_addressed send_synack_frame)

lemma syn_received_sent:
  "second_peer message = local_peer s \<Longrightarrow>
   control_sent (syn_received env message s) =
     control_sent s @
     (if env (synack_message (local_peer s) (first_peer message)) = ALLOC_FAILED then []
      else [synack_message (local_peer s) (first_peer message)])"
  by (simp add: syn_received_addressed send_synack_sent)

lemma syn_received_logged:
  "second_peer message = local_peer s \<Longrightarrow>
   logged (syn_received env message s) =
     logged s @
     failure_log ''send_synack'' (env (synack_message (local_peer s) (first_peer message)))"
  by (simp add: syn_received_addressed send_synack_logged)

text \<open>
  Claim C6, amended. A handshake request addressed to the local peer, carried by the
  header \<open>h\<close>, registers its sender with baseline \<open>sequence h\<close> when the sender is not in
  the sequence map and leaves the map as it is otherwise. In both cases \<^verbatim>\<open>send_synack\<close> is
  called once. It hands one handshake acknowledgement addressed to the sender to
  \<^verbatim>\<open>send_control\<close>, and logs an error with the status when \<^verbatim>\<open>send_control\<close> does not
  return \<^verbatim>\<open>SEND_CONTROL_OK\<close>; when the buffer of the reply cannot be allocated it logs an
  error and no reply is sent.
\<close>

theorem syn_received_registers:
  assumes "second_peer message = local_peer s"
  shows "map_of (sequences (syn_received env message (snd (header_received h s)))) =
           (case map_of (sequences (snd (header_received h s))) (first_peer message) of
              None \<Rightarrow>
                (map_of (sequences (snd (header_received h s))))
                  (first_peer message \<mapsto> DisjointSequence_new (sequence h))
            | Some d \<Rightarrow> map_of (sequences (snd (header_received h s)))) \<and>
         control_sent (syn_received env message (snd (header_received h s))) =
           control_sent (snd (header_received h s)) @
           (if env (synack_message (local_peer s) (first_peer message)) = ALLOC_FAILED then []
            else [synack_message (local_peer s) (first_peer message)]) \<and>
         logged (syn_received env message (snd (header_received h s))) =
           logged (snd (header_received h s)) @
           failure_log ''send_synack''
             (env (synack_message (local_peer s) (first_peer message)))"
proof -
  let ?s1 = "snd (header_received h s)"
  have dest: "second_peer message = local_peer ?s1"
    using assms by (simp add: header_received_local_peer)
  have "recvd_header ?s1 = h" by (rule header_received_frame)
  then have "sequences (syn_received env message ?s1) =
      map_insert (first_peer message) (DisjointSequence_new (sequence h)) (sequences ?s1)"
    using dest by (simp add: syn_received_sequences)
  moreover have "control_sent (syn_received env message ?s1) =
      control_sent ?s1 @
      (if env (synack_message (local_peer s) (first_peer message)) = ALLOC_FAILED then []
       else [synack_message (local_peer s) (first_peer message)])"
    using dest by (simp add: syn_received_sent header_received_local_peer)
  moreover have "logged (syn_received env message ?s1) =
      logged ?s1 @
      failure_log ''send_synack'' (env (synack_message (local_peer s) (first_peer message)))"
    using dest by (simp add: syn_received_logged header_received_local_peer)
  ultimately show ?thesis
    by (simp add: map_of_map_insert split: option.splits)
qed

text \<open>
  On the session built from the constructor: the new peer 9 sends its handshake request in
  the header with sequence number 1.
\<close>

theorem syn_received_registers_witness:
  "second_peer syn_from_new = local_peer stalled_session \<and>
   map_of (sequences (syn_received channel_open syn_from_new
                        (snd (header_received header_9_1 stalled_session)))) 9 =
     Some (DisjointSequence_new 1) \<and>
   map_of (sequences (syn_received channel_open syn_from_new
                        (snd (header_received header_9_1 stalled_session)))) 2 =
     Some example_tracker \<and>
   control_sent (syn_received channel_open syn_from_new
                   (snd (header_received header_9_1 stalled_session))) =
     control_sent stalled_session @ [synack_message 1 9] \<and>
   logged (syn_received channel_open syn_from_new
             (snd (header_received header_9_1 stalled_session))) = [] \<and>
   control_sent (syn_received channel_closed syn_from_new
                   (snd (header_received header_9_1 stalled_session))) =
     control_sent stalled_session @ [synack_message 1 9] \<and>
   logged (syn_received channel_closed syn_from_new
             (snd (header_received header_9_1 stalled_session))) =
     [(LM_ERROR, ''send_synack: send_control failed'', [STATUS SEND_CONTROL_ERROR])] \<and>
   control_sent (syn_received no_memory syn_from_new
                   (snd (header_received header_9_1 stalled_session))) =
     control_sent stalled_session \<and>
   logged (syn_received no_memory syn_from_new
             (snd (header_received header_9_1 stalled_session))) =
     [(LM_ERROR, ''send_synack: failed to allocate message'', [])]"
proof -
  have dest: "second_peer syn_from_new = local_peer stalled_session"
    by (simp add: syn_from_new_def stalled_session_fields)
  have after_header:
    "sequences (snd (header_received header_9_1 stalled_session)) = [(2, example_tracker)]"
    "control_sent (snd (header_received header_9_1 stalled_session)) =
       control_sent stalled_session"
    "logged (snd (header_received header_9_1 stalled_session)) = []"
    by (simp_all add: header_received_def header_9_1_def stalled_session_fields)
  have facts: "first_peer syn_from_new = 9" "local_peer stalled_session = 1"
      "sequence header_9_1 = 1"
    by (simp_all add: syn_from_new_def stalled_session_fields header_9_1_def)
  show ?thesis
    using dest
      syn_received_registers [OF dest, of channel_open header_9_1]
      syn_received_registers [OF dest, of channel_closed header_9_1]
      syn_received_registers [OF dest, of no_memory header_9_1]
    by (simp add: facts after_header failure_log_def channel_open_def channel_closed_def
          no_memory_def)
qed

text \<open>
  Claim C6 as stated fails when no buffer can be allocated: the request of the new peer 9
  is addressed to the local peer, and no acknowledgement is sent.
\<close>

theorem syn_received_no_memory:
  "second_peer syn_from_new = local_peer example_session \<and>
   map_of (sequences example_session) (first_peer syn_from_new) = None \<and>
   control_sent (syn_received no_memory syn_from_new example_session) = []"
  by (simp add: syn_received_def send_synack_def create_control_def no_memory_def Let_def
        syn_from_new_def example_session_def ReliableMulticast_new_def)

text \<open>
  Claim C10, amended. A handshake request addressed to the local peer from a sender
  already in the sequence map leaves the whole map, and so the sender's tracker, as it
  was. \<^verbatim>\<open>send_synack\<close> is still called: it hands the acknowledgement to \<^verbatim>\<open>send_control\<close>,
  and logs an error with the status when \<^verbatim>\<open>send_control\<close> does not return
  \<^verbatim>\<open>SEND_CONTROL_OK\<close>; when the buffer of the reply cannot be allocated it logs an error
  and no acknowledgement is sent.
\<close>

theorem syn_received_known_sender:
  assumes "second_peer message = local_peer s"
    and "map_of (sequences s) (first_peer message) = Some d"
  shows "sequences (syn_received env message s) = sequences s \<and>
         map_of (sequences (syn_received env message s)) (first_peer message) = Some d \<and>
         control_sent (syn_received env message s) =
           control_sent s @
           (if env (synack_message (local_peer s) (first_peer message)) = ALLOC_FAILED then []
            else [synack_message (local_peer s) (first_peer message)]) \<and>
         logged (syn_received env message s) =
           logged s @
           failure_log ''send_synack''
             (env (synack_message (local_peer s) (first_peer message)))"
  using assms
  by (simp add: syn_received_sequences syn_received_sent syn_received_logged map_insert_def)

text \<open>
  On the session built from the constructor: peer 2, already registered, sends its
  handshake request again.
\<close>

theorem syn_received_known_sender_witness:
  "second_peer syn_from_known = local_peer stalled_session \<and>
   map_of (sequences stalled_session) (first_peer syn_from_known) = Some example_tracker \<and>
   sequences (syn_received channel_open syn_from_known stalled_session) =
     sequences stalled_session \<and>
   control_sent (syn_received channel_open syn_from_known stalled_session) =
     control_sent stalled_session @ [synack_message 1 2] \<and>
   logged (syn_received channel_open syn_from_known stalled_session) = [] \<and>
   control_sent (syn_received channel_closed syn_from_known stalled_session) =
     control_sent stalled_session @ [synack_message 1 2] \<and>
   logged (syn_received channel_closed syn_from_known stalled_session) =
     [(LM_ERROR, ''send_synack: send_control failed'', [STATUS SEND_CONTROL_ERROR])] \<and>
   control_sent (syn_received no_memory syn_from_known stalled_session) =
     control_sent stalled_session \<and>
   logged (syn_received no_memory syn_from_known stalled_session) =
     [(LM_ERROR, ''send_synack: failed to allocate message'', [])]"
proof -
  have dest: "second_peer syn_from_known = local_peer stalled_session"
    by (simp add: syn_from_known_def stalled_session_fields)
  have known: "map_of (sequences stalled_session) (first_peer syn_from_known) = Some example_tracker"
    by (simp add: syn_from_known_def stalled_session_fields)
  have facts: "first_peer syn_from_known = 2" "local_peer stalled_session = 1"
      "logged stalled_session = []"
    by (simp_all add: syn_from_known_def stalled_session_fields)
  show ?thesis
    using dest known
      syn_received_known_sender [OF dest known, of channel_open]
      syn_received_known_sender [OF dest known, of channel_closed]
      syn_received_known_sender [OF dest known, of no_memory]
    by (simp add: facts failure_log_def channel_open_def channel_closed_def no_memory_def)
qed

text \<open>
  Claim C10 as stated fails when no buffer can be allocated: peer 2 is known, its
  tracker is kept, and no acknowledgement is sent back.
\<close>

theorem syn_received_known_no_memory:
  "second_peer syn_from_known = local_peer example_session \<and>
   map_of (sequences example_session) (first_peer syn_from_known) = Some example_tracker \<and>
   control_sent (syn_received no_memory syn_from_known example_session) = []"
  by (simp add: syn_received_def send_synack_def create_control_def no_memory_def Let_def
        syn_from_known_def example_session_def ReliableMulticast_new_def)

text \<open>
  Claim C8. A handshake request or a handshake acknowledgement whose destination is not
  the local peer leaves the session exactly as it was: the sequence map, the ledger, the
  acknowledged flag, the watchdogs and the list of messages sent.
\<close>

theorem misaddressed_handshake_ignored:
  assumes "second_peer message \<noteq> local_peer s"
  shows "syn_received env message s = s \<and> synack_received message s = s"
  using assms by (simp add: syn_received_def synack_received_def)

theorem misaddressed_handshake_ignored_witness:
  "second_peer syn_for_other \<noteq> local_peer example_session \<and>
   syn_received channel_open syn_for_other example_session = example_session \<and>
   synack_received syn_for_other example_session = example_session"
proof -
  have other: "second_peer syn_for_other \<noteq> local_peer example_session"
    by (simp add: syn_for_other_def example_session_def ReliableMulticast_new_def)
  show ?thesis
    using other misaddressed_handshake_ignored [OF other, of channel_open] by simp
qed

subsection \<open>The ledger stays in timestamp order\<close>

lemma set_history_insert: "set (history_insert e h) = insert e (set h)"
  by (induction h) auto

lemma sorted_history_insert:
  "sorted (map fst h) \<Longrightarrow> sorted (map fst (history_insert e h))"
  by (induction h) (auto simp: set_history_insert)

lemma sorted_dropWhile_due:
  "sorted (map fst h) \<Longrightarrow> sorted (map fst (dropWhile (\<lambda>e. fst e \<le> (d::int)) h))"
  by (simp add: dropWhile_due sorted_map sorted_wrt_filter)

lemma send_naks_loop_sorted:
  "sorted (map fst (nak_history s)) \<Longrightarrow>
   sorted (map fst (nak_history (send_naks_loop env now m s)))"
  by (induction m arbitrary: s) (simp_all add: send_nak_ranges_frame sorted_history_insert)

lemma sample_received_history:
  "nak_history (sample_received env smp s) = nak_history s"
  by (simp add: sample_received_def syn_received_frame synack_received_def nak_received_def
        nakack_received_def ack_received_def data_received_def Let_def
      split: MessageId.splits SubMessageId.splits)

lemma send_naks_sorted:
  "sorted (map fst (nak_history s)) \<Longrightarrow> sorted (map fst (nak_history (send_naks env now s)))"
  by (simp add: send_naks_def send_naks_loop_sorted)

lemma expire_naks_sorted:
  "sorted (map fst (nak_history s)) \<Longrightarrow> sorted (map fst (nak_history (expire_naks now s)))"
  by (simp add: expire_naks_history sorted_dropWhile_due)

lemma perform_sorted:
  "sorted (map fst (nak_history s)) \<Longrightarrow> sorted (map fst (nak_history (perform e s)))"
  by (cases e)
     (simp_all add: header_received_frame sample_received_history send_naks_sorted
        expire_naks_sorted send_syn_frame send_synack_frame send_nak_frame send_nakack_def
        NakWatchdog_on_interval_def SynWatchdog_on_interval_def SynWatchdog_on_timeout_def
        join_i_frame leave_i_def)

lemma run_sorted:
  "sorted (map fst (nak_history s)) \<Longrightarrow> sorted (map fst (nak_history (run ops s)))"
  by (induction ops arbitrary: s) (simp_all add: perform_sorted)

lemma ledger_ordered:
  "sorted (map fst (nak_history (run ops (ReliableMulticast_new cfg lp rp))))"
  by (rule run_sorted) (simp add: ReliableMulticast_new_def)

subsection \<open>The acknowledged flag\<close>

lemma sample_received_acked:
  "acked_flag (sample_received env smp s) =
     (acked_flag s \<or>
      (message_id (header smp) = TRANSPORT_CONTROL \<and>
       submessage_id (header smp) = MULTICAST_SYNACK \<and>
       second_peer (sample smp) = local_peer s))"
  by (simp add: sample_received_def syn_received_frame synack_received_def nak_received_def
        nakack_received_def ack_received_def data_received_def Let_def
      split: MessageId.splits SubMessageId.splits)

lemma send_naks_acked: "acked_flag (send_naks env now s) = acked_flag s"
  by (simp add: send_naks_def send_naks_loop_frame)

lemma perform_acked_other:
  "\<forall>env smp. e \<noteq> SAMPLE_RECEIVED env smp \<Longrightarrow> acked_flag (perform e s) = acked_flag s"
  by (cases e)
     (simp_all add: header_received_frame send_naks_acked
        expire_naks_frame send_syn_frame send_synack_frame send_nak_frame send_nakack_def
        NakWatchdog_on_interval_def SynWatchdog_on_interval_def SynWatchdog_on_timeout_def
        join_i_frame leave_i_def)

lemma perform_keeps_acked: "acked s \<Longrightarrow> acked (perform e s)"
proof (cases "\<exists>env smp. e = SAMPLE_RECEIVED env smp")
  case True
  then show "acked s \<Longrightarrow> acked (perform e s)"
    by (auto simp: acked_def sample_received_acked)
next
  case False
  then show "acked s \<Longrightarrow> acked (perform e s)"
    by (simp add: acked_def perform_acked_other)
qed

lemma run_keeps_acked: "acked s \<Longrightarrow> acked (run ops s)"
  by (induction ops arbitrary: s) (simp_all add: perform_keeps_acked)

lemma perform_sets_acked:
  assumes "\<not> acked s" and "acked (perform e s)"
  shows "\<exists>env smp. e = SAMPLE_RECEIVED env smp \<and>
           message_id (header smp) = TRANSPORT_CONTROL \<and>
           submessage_id (header smp) = MULTICAST_SYNACK \<and>
           second_peer (sample smp) = local_peer s \<and>
           perform e s = synack_received (sample smp) s"
proof (cases "\<exists>env smp. e = SAMPLE_RECEIVED env smp")
  case True
  then obtain env smp where e: "e = SAMPLE_RECEIVED env smp" by blast
  with assms have "message_id (header smp) = TRANSPORT_CONTROL \<and>
       submessage_id (header smp) = MULTICAST_SYNACK \<and>
       second_peer (sample smp) = local_peer s"
    by (simp add: acked_def sample_received_acked)
  moreover from this have "perform e s = synack_received (sample smp) s"
    by (simp add: e sample_received_def)
  ultimately show ?thesis using e by blast
next
  case False
  with assms show ?thesis by (simp add: acked_def perform_acked_other)
qed

text \<open>
  Claim C5. A new session is not acknowledged. Once the flag is set, no sequence of
  operations resets it. An operation that sets the flag is the receipt of a handshake
  acknowledgement whose destination is the local peer, and that receipt also cancels the
  handshake watchdog and asks the transport once to look at its pending associations.
\<close>

theorem acked_lifecycle:
  "\<not> acked (ReliableMulticast_new cfg lp rp) \<and>
   (acked s \<longrightarrow> acked (run ops s)) \<and>
   (\<not> acked s \<and> acked (perform e s) \<longrightarrow>
      (\<exists>env smp. e = SAMPLE_RECEIVED env smp \<and>
         message_id (header smp) = TRANSPORT_CONTROL \<and>
         submessage_id (header smp) = MULTICAST_SYNACK \<and>
         second_peer (sample smp) = local_peer s) \<and>
      \<not> syn_watchdog (perform e s) \<and>
      association_checks (perform e s) = Suc (association_checks s)) \<and>
   (second_peer message = local_peer s \<longrightarrow>
      acked (synack_received message s) \<and>
      \<not> syn_watchdog (synack_received message s) \<and>
      association_checks (synack_received message s) = Suc (association_checks s))"
proof (intro conjI impI)
  show "\<not> acked (ReliableMulticast_new cfg lp rp)"
    by (simp add: acked_def ReliableMulticast_new_def)
next
  assume "acked s"
  then show "acked (run ops s)" by (rule run_keeps_acked)
next
  assume a: "\<not> acked s \<and> acked (perform e s)"
  then obtain env smp where e: "e = SAMPLE_RECEIVED env smp"
      "message_id (header smp) = TRANSPORT_CONTROL"
      "submessage_id (header smp) = MULTICAST_SYNACK"
      "second_peer (sample smp) = local_peer s"
      "perform e s = synack_received (sample smp) s"
    using perform_sets_acked [of s e] by blast
  show "\<exists>env smp. e = SAMPLE_RECEIVED env smp \<and>
         message_id (header smp) = TRANSPORT_CONTROL \<and>
         submessage_id (header smp) = MULTICAST_SYNACK \<and>
         second_peer (sample smp) = local_peer s"
    using e by blast
  show "\<not> syn_watchdog (perform e s)"
    using e by (simp add: synack_received_def)
  show "association_checks (perform e s) = Suc (association_checks s)"
    using e by (simp add: synack_received_def)
next
  assume "second_peer message = local_peer s"
  then show "acked (synack_received message s)"
    "\<not> syn_watchdog (synack_received message s)"
    "association_checks (synack_received message s) = Suc (association_checks s)"
    by (simp_all add: acked_def synack_received_def)
qed

theorem acked_lifecycle_witness:
  "\<not> acked example_session \<and>
   acked (perform (SAMPLE_RECEIVED channel_open synack_sample) example_session) \<and>
   \<not> syn_watchdog (perform (SAMPLE_RECEIVED channel_open synack_sample) example_session) \<and>
   association_checks (synack_received (sample synack_sample) example_session) = 1 \<and>
   acked (run [LEAVE, EXPIRE_NAKS 100, JOIN True True True True, SYN_ON_TIMEOUT]
            (perform (SAMPLE_RECEIVED channel_open synack_sample) example_session))"
proof -
  let ?e = "SAMPLE_RECEIVED channel_open synack_sample"
  have before: "\<not> acked example_session"
    by (simp add: acked_def example_session_def ReliableMulticast_new_def)
  have after: "acked (perform ?e example_session)"
    by (simp add: acked_def sample_received_def synack_received_def synack_sample_def
          example_session_def ReliableMulticast_new_def)
  have dest: "second_peer (sample synack_sample) = local_peer example_session"
    by (simp add: synack_sample_def example_session_def ReliableMulticast_new_def)
  have checks: "association_checks example_session = 0"
    by (simp add: example_session_def ReliableMulticast_new_def)
  show ?thesis
    using before after dest checks
      acked_lifecycle [of example_config 1 2 example_session "[]" ?e "sample synack_sample"]
      acked_lifecycle [of example_config 1 2 "perform ?e example_session"
        "[LEAVE, EXPIRE_NAKS 100, JOIN True True True True, SYN_ON_TIMEOUT]" ?e
        "sample synack_sample"]
    by simp
qed

subsection \<open>The repair replies\<close>

text \<open>
  Claim C1. The handler of a repair acknowledgement has an empty body: a repair
  acknowledgement from peer 2 for the range \<open>(2, 5]\<close>, addressed to the local peer, leaves
  the tracker of peer 2 with low-water mark 1, where \<open>skip 5\<close> would have moved it to 5.
\<close>

theorem nakack_received_leaves_tracker:
  "second_peer repair_2_5 = local_peer example_session \<and>
   nakack_received repair_2_5 example_session = example_session \<and>
   sample_received channel_open nakack_sample example_session = example_session \<and>
   map_of (sequences (nakack_received repair_2_5 example_session)) (first_peer repair_2_5) =
     Some example_tracker \<and>
   low example_tracker = 1 \<and>
   low (skip 5 example_tracker) = 5"
  by (simp add: nakack_received_def sample_received_def nakack_sample_def repair_2_5_def
        example_session_def example_tracker_def ReliableMulticast_new_def skip_def)

text \<open>
  Claim C7. The handler of a repair request has an empty body, and so has
  \<^verbatim>\<open>send_nakack\<close>: a repair request for the range \<open>(2, 5]\<close> addressed to the local peer
  is answered by no message at all.
\<close>

theorem nak_received_sends_nothing:
  "second_peer repair_2_5 = local_peer example_session \<and>
   nak_received repair_2_5 example_session = example_session \<and>
   sample_received channel_open nak_sample example_session = example_session \<and>
   control_sent (sample_received channel_open nak_sample example_session) = [] \<and>
   send_nakack 2 2 5 example_session = example_session"
  by (simp add: nak_received_def send_nakack_def sample_received_def nak_sample_def
        repair_2_5_def example_session_def ReliableMulticast_new_def)

subsection \<open>The tracker keeps its invariants\<close>

lemma ds_invariant_new: "ds_invariant (DisjointSequence_new v)"
  by (simp add: ds_invariant_def DisjointSequence_new_def)

lemma ds_invariant_skip: "ds_invariant d \<Longrightarrow> ds_invariant (skip floor d)"
  by (auto simp: ds_invariant_def skip_def list_all_iff)

lemma ds_invariant_update: "ds_invariant d \<Longrightarrow> ds_invariant (snd (update v d))"
  by (auto simp: ds_invariant_def update_def list_all_iff uncover_def covers_def
           split: if_splits)

subsection \<open>No recorded mark passes the high-water mark\<close>

lemma keys_assign: "map fst (assign k v m) = map fst m"
  by (induction m) auto

lemma keys_map_insert:
  "distinct (map fst m) \<Longrightarrow> distinct (map fst (map_insert k v m))"
proof (cases "map_of m k")
  case None
  assume d: "distinct (map fst m)"
  from None have "k \<notin> fst ` set m" by (simp add: map_of_eq_None_iff)
  moreover have "set (insort_key fst (k, v) m) = insert (k, v) (set m)"
    by (simp add: set_insort_key)
  moreover have "distinct (map fst (insort_key fst (k, v) m))"
    using d \<open>k \<notin> fst ` set m\<close>
    by (induction m) (auto simp: set_insort_key)
  ultimately show ?thesis using None by (simp add: map_insert_def)
next
  case (Some d)
  assume "distinct (map fst m)"
  with Some show ?thesis by (simp add: map_insert_def)
qed

lemma high_update: "high d \<le> high (snd (update v d))"
  by (simp add: update_def)

lemma high_skip: "high d \<le> high (skip floor d)"
  by (simp add: skip_def)

lemma marks_bounded_cong:
  "sequences s' = sequences s \<Longrightarrow> nak_history s' = nak_history s \<Longrightarrow>
   marks_bounded s' = marks_bounded s"
  by (simp add: marks_bounded_def)

lemma marks_bounded_updates:
  "marks_bounded (s\<lparr>logged := l\<rparr>) = marks_bounded s"
  "marks_bounded (s\<lparr>delivered := ds\<rparr>) = marks_bounded s"
  "marks_bounded (s\<lparr>control_sent := cs\<rparr>) = marks_bounded s"
  "marks_bounded (s\<lparr>syn_watchdog := w\<rparr>) = marks_bounded s"
  "marks_bounded (s\<lparr>nak_watchdog := w\<rparr>) = marks_bounded s"
  "marks_bounded (s\<lparr>acked_flag := a\<rparr>) = marks_bounded s"
  "marks_bounded (s\<lparr>association_checks := n\<rparr>) = marks_bounded s"
  by (simp_all add: marks_bounded_def)

lemma marks_bounded_raise:
  assumes "marks_bounded s"
    and "map_of (sequences s) k = Some d"
    and "high d \<le> high d'"
    and "sequences s' = assign k d' (sequences s)"
    and "set (nak_history s') \<subseteq> set (nak_history s)"
  shows "marks_bounded s'"
proof -
  have "distinct (map fst (sequences s'))"
    using assms(1,4) by (simp add: marks_bounded_def keys_assign)
  moreover have "case map_of (sequences s') (fst (snd e)) of
                   None \<Rightarrow> False | Some d \<Rightarrow> snd (snd e) \<le> high d"
    if "e \<in> set (nak_history s')" for e
  proof -
    from that assms(5) have "e \<in> set (nak_history s)" by blast
    with assms(1) have old: "case map_of (sequences s) (fst (snd e)) of
                   None \<Rightarrow> False | Some d \<Rightarrow> snd (snd e) \<le> high d"
      by (simp add: marks_bounded_def list_all_iff)
    show ?thesis
    proof (cases "fst (snd e) = k")
      case True
      with old assms(2,3,4) show ?thesis by (simp add: map_of_assign)
    next
      case False
      with old assms(4) show ?thesis by (simp add: map_of_assign_other)
    qed
  qed
  ultimately show ?thesis by (simp add: marks_bounded_def list_all_iff)
qed

lemma header_received_sequences:
  "sequences (snd (header_received h s)) =
     (case map_of (sequences s) (source h) of
        None \<Rightarrow> sequences s
      | Some d \<Rightarrow> assign (source h) (snd (update (sequence h) d)) (sequences s))"
  by (simp add: header_received_def Let_def split: option.splits prod.splits)

lemma header_received_bounded:
  assumes "marks_bounded s"
  shows "marks_bounded (snd (header_received h s))"
proof (cases "map_of (sequences s) (source h)")
  case None
  then show ?thesis
    using assms
    by (simp add: marks_bounded_cong [of "snd (header_received h s)" s]
          header_received_sequences header_received_frame)
next
  case (Some d)
  show ?thesis
    by (rule marks_bounded_raise [OF assms Some high_update])
       (simp_all add: header_received_sequences Some header_received_frame)
qed

lemma expire_request_sequences:
  "sequences (expire_request r s) =
     (case map_of (sequences s) (fst r) of
        None \<Rightarrow> sequences s
      | Some d \<Rightarrow> if snd r > as_sequence d then assign (fst r) (skip (snd r) d) (sequences s)
                  else sequences s)"
  by (simp add: expire_request_def split: option.splits)

lemma expire_request_bounded:
  assumes "marks_bounded s"
  shows "marks_bounded (expire_request r s)"
proof (cases "map_of (sequences s) (fst r)")
  case None
  then show ?thesis
    using assms
    by (simp add: marks_bounded_cong [of "expire_request r s" s]
          expire_request_sequences expire_request_frame)
next
  case (Some d)
  show ?thesis
  proof (cases "snd r > as_sequence d")
    case True
    show ?thesis
      by (rule marks_bounded_raise [OF assms Some high_skip])
         (simp_all add: expire_request_sequences Some True expire_request_frame)
  next
    case False
    then show ?thesis
      using assms Some
      by (simp add: marks_bounded_cong [of "expire_request r s" s]
            expire_request_sequences expire_request_frame)
  qed
qed

lemma expire_range_bounded: "marks_bounded s \<Longrightarrow> marks_bounded (expire_range es s)"
  by (induction es arbitrary: s) (simp_all add: expire_request_bounded)

lemma marks_bounded_fewer:
  "marks_bounded s \<Longrightarrow> sequences s' = sequences s \<Longrightarrow>
   set (nak_history s') \<subseteq> set (nak_history s) \<Longrightarrow> marks_bounded s'"
  by (auto simp: marks_bounded_def list_all_iff)

lemma expire_naks_bounded:
  assumes "marks_bounded s"
  shows "marks_bounded (expire_naks now s)"
proof -
  let ?due = "\<lambda>e::ACE_Time_Value \<times> NakRequest. fst e \<le> now - nak_timeout (config s)"
  let ?mid = "expire_range (takeWhile ?due (nak_history s)) s"
  have mid: "marks_bounded ?mid" using assms by (rule expire_range_bounded)
  have "set (nak_history (expire_naks now s)) \<subseteq> set (nak_history ?mid)"
    by (auto simp: expire_naks_history expire_range_frame dest: set_dropWhileD)
  then show ?thesis
    by (rule marks_bounded_fewer [OF mid expire_naks_sequences])
qed

lemma send_naks_loop_bounded:
  assumes "marks_bounded s" and "set m \<subseteq> set (sequences s)"
  shows "marks_bounded (send_naks_loop env now m s)"
  using assms
proof (induction m arbitrary: s)
  case Nil
  then show ?case by simp
next
  case (Cons it m)
  show ?case
  proof (cases "disjoint (snd it)")
    case False
    with Cons show ?thesis by simp
  next
    case True
    let ?s1 = "send_nak_ranges env (fst it) (ranges (snd it))
                 (s\<lparr>nak_history := history_insert (now, (fst it, high (snd it))) (nak_history s)\<rparr>)"
    have there: "map_of (sequences s) (fst it) = Some (snd it)"
      using Cons.prems by (simp add: marks_bounded_def)
    have "marks_bounded ?s1"
      unfolding marks_bounded_def list_all_iff
    proof (intro conjI ballI)
      show "distinct (map fst (sequences ?s1))"
        using Cons.prems(1) by (simp add: marks_bounded_def send_nak_ranges_frame)
    next
      fix e assume "e \<in> set (nak_history ?s1)"
      then consider "e = (now, (fst it, high (snd it)))" | "e \<in> set (nak_history s)"
        by (auto simp: send_nak_ranges_frame set_history_insert)
      then show "case map_of (sequences ?s1) (fst (snd e)) of
                   None \<Rightarrow> False | Some d \<Rightarrow> snd (snd e) \<le> high d"
      proof cases
        case 1
        then show ?thesis by (simp add: send_nak_ranges_frame there)
      next
        case 2
        with Cons.prems(1) have "case map_of (sequences s) (fst (snd e)) of
                   None \<Rightarrow> False | Some d \<Rightarrow> snd (snd e) \<le> high d"
          unfolding marks_bounded_def list_all_iff by blast
        then show ?thesis by (simp add: send_nak_ranges_frame)
      qed
    qed
    moreover have "set m \<subseteq> set (sequences ?s1)"
      using Cons.prems(2) by (simp add: send_nak_ranges_frame)
    ultimately have "marks_bounded (send_naks_loop env now m ?s1)" by (rule Cons.IH)
    with True show ?thesis by simp
  qed
qed

lemma send_naks_bounded: "marks_bounded s \<Longrightarrow> marks_bounded (send_naks env now s)"
  by (simp add: send_naks_def send_naks_loop_bounded)

lemma syn_received_bounded:
  assumes "marks_bounded s"
  shows "marks_bounded (syn_received env message s)"
proof (cases "second_peer message = local_peer s")
  case False
  with assms show ?thesis by (simp add: syn_received_def)
next
  case True
  let ?k = "first_peer message"
  let ?v = "DisjointSequence_new (sequence (recvd_header s))"
  have seqs: "sequences (syn_received env message s) = map_insert ?k ?v (sequences s)"
    using True by (rule syn_received_sequences)
  show ?thesis
  proof (cases "map_of (sequences s) ?k")
    case (Some d)
    then have "sequences (syn_received env message s) = sequences s"
      by (simp add: seqs map_insert_def)
    then show ?thesis
      using assms
      by (simp add: marks_bounded_cong [of "syn_received env message s" s] syn_received_frame)
  next
    case None
    have "distinct (map fst (sequences (syn_received env message s)))"
      using assms by (simp add: seqs marks_bounded_def keys_map_insert)
    moreover have "case map_of (sequences (syn_received env message s)) (fst (snd e)) of
                     None \<Rightarrow> False | Some d \<Rightarrow> snd (snd e) \<le> high d"
      if "e \<in> set (nak_history (syn_received env message s))" for e
    proof -
      from that assms have old: "case map_of (sequences s) (fst (snd e)) of
                     None \<Rightarrow> False | Some d \<Rightarrow> snd (snd e) \<le> high d"
        by (simp add: marks_bounded_def list_all_iff syn_received_frame)
      with None have "fst (snd e) \<noteq> ?k" by auto
      with old None show ?thesis by (simp add: seqs map_of_map_insert)
    qed
    ultimately show ?thesis by (simp add: marks_bounded_def list_all_iff)
  qed
qed

lemma sample_received_bounded:
  "marks_bounded s \<Longrightarrow> marks_bounded (sample_received env smp s)"
  by (simp add: sample_received_def syn_received_bounded nak_received_def nakack_received_def
        synack_received_def ack_received_def data_received_def marks_bounded_updates Let_def
      split: MessageId.splits SubMessageId.splits)

lemma perform_bounded: "marks_bounded s \<Longrightarrow> marks_bounded (perform e s)"
proof (cases e)
  case (NAK_ON_INTERVAL env now1 now2)
  assume "marks_bounded s"
  then show ?thesis
    by (simp add: NAK_ON_INTERVAL NakWatchdog_on_interval_def send_naks_bounded
          expire_naks_bounded)
qed (simp_all add: header_received_bounded sample_received_bounded expire_naks_bounded
       send_naks_bounded marks_bounded_updates
       marks_bounded_cong [of "send_syn env s" s for env]
       marks_bounded_cong [of "send_synack env p s" s for env p]
       marks_bounded_cong [of "send_nak env p lo hi s" s for env p lo hi]
       marks_bounded_cong [of "snd (join_i r n y a s)" s for r n y a]
       send_syn_frame send_synack_frame send_nak_frame send_nakack_def join_i_frame
       join_i_sequences leave_i_def SynWatchdog_on_interval_def SynWatchdog_on_timeout_def)

lemma run_bounded: "marks_bounded s \<Longrightarrow> marks_bounded (run ops s)"
  by (induction ops arbitrary: s) (simp_all add: perform_bounded)

text \<open>
  On every session built from the constructor the high-water mark of a peer is never
  below a mark recorded for it: a rule that waits for the high-water mark to fall behind
  would never skip.
\<close>

lemma reachable_marks_bounded:
  "marks_bounded (run ops (ReliableMulticast_new cfg lp rp))"
  by (rule run_bounded) (simp add: marks_bounded_def ReliableMulticast_new_def)

lemma reachable_high_never_behind:
  assumes "e \<in> set (nak_history (run ops (ReliableMulticast_new cfg lp rp)))"
    and "map_of (sequences (run ops (ReliableMulticast_new cfg lp rp))) (fst (snd e)) = Some d"
  shows "skip_if_high_behind (snd (snd e)) d = d"
proof -
  have "marks_bounded (run ops (ReliableMulticast_new cfg lp rp))"
    by (rule reachable_marks_bounded)
  with assms have "snd (snd e) \<le> high d"
    by (auto simp: marks_bounded_def list_all_iff)
  then show ?thesis by (simp add: skip_if_high_behind_def)
qed

end
